theory Spec2Isabelle
  imports Main "HOL-Library.AList"
begin

section \<open>Data model\<close>

text \<open>
  A JSON object as the program reads it (a Python dict): the keys \<open>id\<close>, \<open>results\<close>,
  \<open>total_pages\<close> and \<open>genres\<close> are the only ones the code looks up, each possibly
  absent (\<open>None\<close>); everything else is opaque content. List-level movies, detail
  records, listing pages and the genre answer are all values of this one type, as in
  the source.
\<close>

datatype jdict =
  JDict (j_id: "int option") (j_results: "jdict list option")
        (j_total_pages: "int option") (j_genres: "jdict list option") (j_rest: string)

text \<open>The three endpoints \<open>/movie/popular\<close> (with its page), \<open>/movie/{id}\<close> and
  \<open>/genre/movie/list\<close>.\<close>

datatype request = Popular int | Movie "int option" | GenreList

text \<open>The \<open>Retry-After\<close> header of a response: absent, an integer, or text that
  \<open>int(...)\<close> rejects.\<close>

datatype retry_after = NoHeader | Seconds int | Unparsable

text \<open>What \<open>session.get\<close> does on one HTTP request: it returns a response or raises
  \<open>requests.Timeout\<close> or \<open>requests.ConnectionError\<close>. A response below status 400
  carries a JSON object.\<close>

datatype outcome =
  Response (status_code: int) (retry_after_hdr: retry_after) (json: jdict)
  | Timeout
  | ConnectionError

text \<open>The server is the environment: the outcome of the \<open>n\<close>-th HTTP request of the
  run (counted from 0), given what that request asks for.\<close>

type_synonym server = "nat \<Rightarrow> request \<Rightarrow> outcome"

text \<open>Exceptions. \<open>RetryError\<close> is what the \<open>tenacity\<close> decorator raises when it
  gives up (the decorator is built without \<open>reraise=True\<close>); it wraps the exception of
  the last attempt.\<close>

datatype exn =
  ValueError
  | TMDbAPIError
  | RequestsTimeout
  | RequestsConnectionError
  | OverflowError
  | RetryError exn

text \<open>What the run does that an observer can see, in order: the sleeps, the HTTP
  requests sent, and the two log lines that name a movie.\<close>

datatype event =
  Sleep_request_delay
  | Sent request
  | Sleep_retry_after int
  | Sleep_backoff nat
  | Debug_fetching_detail "int option"
  | Error_failed_detail "int option" exn

text \<open>The extractor's state during one run: the number of HTTP requests sent so far,
  the events so far, and the locals of \<open>extract_movies_with_details\<close> together with the
  records it has yielded.\<close>

record state =
  sent :: nat
  trace :: "event list"
  seen_ids :: "int option set"
  total_extracted :: nat
  yielded :: "jdict list"

definition init_state :: state where
  "init_state = \<lparr>sent = 0, trace = [], seen_ids = {}, total_extracted = 0, yielded = []\<rparr>"

definition emit :: "event list \<Rightarrow> state \<Rightarrow> state" where
  "emit evs s = s\<lparr>trace := trace s @ evs\<rparr>"

record TMDbConfig =
  pages_to_fetch :: int

section \<open>extract.py: the API client\<close>

text \<open>The body of \<open>_get\<close>, one attempt: the fixed delay, the request, then the
  classification of the response in the source's order (429, then 500 and above, then
  400 and above). On 429, \<open>int(...)\<close> of an unparsable header and \<open>time.sleep\<close> of a
  negative number both raise \<open>ValueError\<close>, and \<open>time.sleep\<close> of a number of seconds
  that does not fit 64 bits as nanoseconds raises \<open>OverflowError\<close>.\<close>

definition get_attempt :: "server \<Rightarrow> request \<Rightarrow> state \<Rightarrow> (exn + jdict) \<times> state" where
  "get_attempt srv req s =
     (let s1 = (emit [Sleep_request_delay, Sent req] s)\<lparr>sent := sent s + 1\<rparr> in
      case srv (sent s) req of
        Timeout \<Rightarrow> (Inl RequestsTimeout, s1)
      | ConnectionError \<Rightarrow> (Inl RequestsConnectionError, s1)
      | Response code hdr body \<Rightarrow>
          if code = 429 then
            (case hdr of
               NoHeader \<Rightarrow> (Inl TMDbAPIError, emit [Sleep_retry_after 10] s1)
             | Seconds n \<Rightarrow>
                 if n < 0 then (Inl ValueError, s1)
                 else if n * 1000000000 > 2 ^ 63 - 1 then (Inl OverflowError, s1)
                 else (Inl TMDbAPIError, emit [Sleep_retry_after n] s1)
             | Unparsable \<Rightarrow> (Inl ValueError, s1))
          else if code \<ge> 500 then (Inl TMDbAPIError, s1)
          else if code \<ge> 400 then (Inl ValueError, s1)
          else (Inr body, s1))"

text \<open>The decorator's arguments. \<open>retry_if_exception_type\<close> names
  \<open>requests.Timeout\<close>, \<open>requests.ConnectionError\<close> and \<open>TMDbAPIError\<close>.\<close>

fun retry_if_exception_type :: "exn \<Rightarrow> bool" where
  "retry_if_exception_type RequestsTimeout = True"
| "retry_if_exception_type RequestsConnectionError = True"
| "retry_if_exception_type TMDbAPIError = True"
| "retry_if_exception_type _ = False"

definition stop_after_attempt :: nat where
  "stop_after_attempt = 5"

text \<open>\<open>tenacity.wait_exponential\<close>: \<open>multiplier * 2 ^ (attempt_number - 1)\<close>, clamped
  between \<open>min\<close> and \<open>max\<close>. It takes the attempt number and nothing else.\<close>

definition wait_exponential :: "nat \<Rightarrow> nat \<Rightarrow> nat \<Rightarrow> nat \<Rightarrow> nat" where
  "wait_exponential multiplier mn mx attempt_number =
     max (max 0 mn) (min (multiplier * 2 ^ (attempt_number - 1)) mx)"

definition backoff :: "nat \<Rightarrow> nat" where
  "backoff attempt_number = wait_exponential 1 1 30 attempt_number"

text \<open>The decorated \<open>_get\<close>: the retry loop of \<open>tenacity\<close> from attempt
  \<open>attempt_number\<close> on. An exception the predicate rejects is raised as it is; one it
  accepts is retried after the backoff sleep, unless the attempt ceiling is reached,
  where \<open>RetryError\<close> is raised.\<close>

function retrying :: "server \<Rightarrow> request \<Rightarrow> nat \<Rightarrow> state \<Rightarrow> (exn + jdict) \<times> state" where
  "retrying srv req attempt_number s =
     (case get_attempt srv req s of
        (Inr body, s') \<Rightarrow> (Inr body, s')
      | (Inl e, s') \<Rightarrow>
          if \<not> retry_if_exception_type e then (Inl e, s')
          else if attempt_number \<ge> stop_after_attempt then (Inl (RetryError e), s')
          else retrying srv req (attempt_number + 1)
                 (emit [Sleep_backoff (backoff attempt_number)] s'))"
  by pat_completeness auto
termination
  by (relation "measure (\<lambda>(srv, req, k, s). stop_after_attempt - k)") auto

declare retrying.simps [simp del]

definition tmdb_get :: "server \<Rightarrow> request \<Rightarrow> state \<Rightarrow> (exn + jdict) \<times> state" where
  "tmdb_get srv req s = retrying srv req 1 s"

section \<open>extract.py: the extractor\<close>

text \<open>\<open>pages or self.config.pages_to_fetch\<close>: Python's \<open>or\<close> takes the right operand
  when the left one is \<open>None\<close> or \<open>0\<close>.\<close>

definition pages_or :: "int option \<Rightarrow> int \<Rightarrow> int" where
  "pages_or pages dflt = (case pages of None \<Rightarrow> dflt | Some n \<Rightarrow> if n = 0 then dflt else n)"

text \<open>\<open>data.get("results", [])\<close> and \<open>data.get("total_pages", 1)\<close>.\<close>

definition get_results :: "jdict \<Rightarrow> jdict list" where
  "get_results data = (case j_results data of None \<Rightarrow> [] | Some ms \<Rightarrow> ms)"

definition get_total_pages :: "jdict \<Rightarrow> int" where
  "get_total_pages data = (case j_total_pages data of None \<Rightarrow> 1 | Some n \<Rightarrow> n)"

text \<open>A generator is modelled with its consumer: \<open>yield movie\<close> runs the body of the
  consumer's \<open>for\<close> loop on the state, and an exception of that body ends the loop.\<close>

type_synonym consumer = "jdict \<Rightarrow> state \<Rightarrow> exn option \<times> state"

fun for_movies :: "consumer \<Rightarrow> jdict list \<Rightarrow> state \<Rightarrow> exn option \<times> state" where
  "for_movies f [] s = (None, s)"
| "for_movies f (m # ms) s =
     (case f m s of
        (Some e, s') \<Rightarrow> (Some e, s')
      | (None, s') \<Rightarrow> for_movies f ms s')"

text \<open>The loop \<open>for page in range(1, pages_to_fetch + 1)\<close> from \<open>page\<close> on, with its
  \<open>break\<close> once \<open>page >= total_pages\<close>.\<close>

function pages_loop :: "server \<Rightarrow> consumer \<Rightarrow> int \<Rightarrow> int \<Rightarrow> state \<Rightarrow> exn option \<times> state" where
  "pages_loop srv f n page s =
     (if page > n then (None, s)
      else
        case tmdb_get srv (Popular page) s of
          (Inl e, s1) \<Rightarrow> (Some e, s1)
        | (Inr data, s1) \<Rightarrow>
            (case for_movies f (get_results data) s1 of
               (Some e, s2) \<Rightarrow> (Some e, s2)
             | (None, s2) \<Rightarrow>
                 if page \<ge> get_total_pages data then (None, s2)
                 else pages_loop srv f n (page + 1) s2))"
  by pat_completeness auto
termination
  by (relation "measure (\<lambda>(srv, f, n, page, s). nat (n + 1 - page))") auto

declare pages_loop.simps [simp del]

definition extract_popular_movies ::
  "server \<Rightarrow> TMDbConfig \<Rightarrow> int option \<Rightarrow> consumer \<Rightarrow> state \<Rightarrow> exn option \<times> state" where
  "extract_popular_movies srv cfg pages f s =
     pages_loop srv f (pages_or pages (pages_to_fetch cfg)) 1 s"

definition extract_movie_detail :: "server \<Rightarrow> int option \<Rightarrow> state \<Rightarrow> (exn + jdict) \<times> state" where
  "extract_movie_detail srv movie_id s =
     tmdb_get srv (Movie movie_id) (emit [Debug_fetching_detail movie_id] s)"

definition extract_genre_list :: "server \<Rightarrow> state \<Rightarrow> (exn + jdict list) \<times> state" where
  "extract_genre_list srv s =
     (case tmdb_get srv GenreList s of
        (Inl e, s') \<Rightarrow> (Inl e, s')
      | (Inr data, s') \<Rightarrow> (Inr (case j_genres data of None \<Rightarrow> [] | Some gs \<Rightarrow> gs), s'))"

text \<open>The body of the \<open>for list_movie in ...\<close> loop of \<open>extract_movies_with_details\<close>.
  The \<open>except\<close> clause names \<open>ValueError\<close> and \<open>TMDbAPIError\<close>; any other exception
  leaves the generator.\<close>

definition detail_body :: "server \<Rightarrow> consumer" where
  "detail_body srv list_movie s =
     (let movie_id = j_id list_movie in
      if movie_id \<in> seen_ids s then (None, s)
      else
        case extract_movie_detail srv movie_id (s\<lparr>seen_ids := insert movie_id (seen_ids s)\<rparr>) of
          (Inr detail, s') \<Rightarrow>
            (None, s'\<lparr>total_extracted := total_extracted s' + 1,
                      yielded := yielded s' @ [detail]\<rparr>)
        | (Inl e, s') \<Rightarrow>
            if e = ValueError \<or> e = TMDbAPIError
            then (None, emit [Error_failed_detail movie_id e] s')
            else (Some e, s'))"

definition extract_movies_with_details ::
  "server \<Rightarrow> TMDbConfig \<Rightarrow> int option \<Rightarrow> state \<Rightarrow> exn option \<times> state" where
  "extract_movies_with_details srv cfg pages s =
     extract_popular_movies srv cfg pages (detail_body srv)
       (s\<lparr>seen_ids := {}, total_extracted := 0, yielded := []\<rparr>)"

text \<open>Consuming \<open>extract_popular_movies\<close> on its own, as \<open>list(...)\<close> does.\<close>

definition collect :: consumer where
  "collect movie s = (None, s\<lparr>yielded := yielded s @ [movie]\<rparr>)"

section \<open>load.py: the loader\<close>

text \<open>The two Bronze tables, as \<open>ensure_tables_exist\<close> declares them. Neither has a key
  constraint, so a table is a list of rows (in insertion order) that may hold duplicates.\<close>

record movie_row =
  row_movie_id :: int
  raw_data :: jdict
  source_url :: string
  ingested_at :: string
  row_batch_id :: string

record genre_row =
  genres_raw_data :: "jdict list"
  genres_ingested_at :: string
  genres_batch_id :: string

record db =
  raw_movies :: "movie_row list"
  raw_genres :: "genre_row list"

text \<open>The loader object: \<open>batch_id\<close> is the UUID drawn when it is constructed.\<close>

record SnowflakeLoader =
  batch_id :: string

text \<open>The \<open>MERGE\<close> statement for one source row: every target row with the same
  \<open>MOVIE_ID\<close> is updated; when there is none, the source row is inserted.\<close>

definition merge_sql :: "movie_row \<Rightarrow> movie_row list \<Rightarrow> movie_row list" where
  "merge_sql src tbl =
     (if row_movie_id src \<in> row_movie_id ` set tbl then
        map (\<lambda>target.
               if row_movie_id target = row_movie_id src
               then target\<lparr>raw_data := raw_data src, source_url := source_url src,
                          ingested_at := ingested_at src, row_batch_id := row_batch_id src\<rparr>
               else target) tbl
      else tbl @ [src])"

text \<open>The list comprehension that builds \<open>rows\<close>: \<open>if movie.get("id")\<close> drops a movie
  whose id is absent or 0.\<close>

definition movie_rows :: "SnowflakeLoader \<Rightarrow> string \<Rightarrow> jdict list \<Rightarrow> movie_row list" where
  "movie_rows ld now batch =
     concat (map (\<lambda>movie.
        case j_id movie of
          None \<Rightarrow> []
        | Some n \<Rightarrow>
            if n = 0 then []
            else [\<lparr>row_movie_id = n, raw_data = movie,
                   source_url = ''https://api.themoviedb.org/3/movie/{id}'',
                   ingested_at = now, row_batch_id = batch_id ld\<rparr>]) batch)"

text \<open>The loop \<open>for batch_start in range(0, len(movies), batch_size)\<close> from
  \<open>batch_start\<close> on, for a positive step; the pair is \<open>total_loaded\<close> and the table.\<close>

function load_batches ::
  "SnowflakeLoader \<Rightarrow> string \<Rightarrow> jdict list \<Rightarrow> nat \<Rightarrow> nat \<Rightarrow> nat \<times> movie_row list
     \<Rightarrow> nat \<times> movie_row list" where
  "load_batches ld now movies step batch_start (total_loaded, tbl) =
     (if 0 < step \<and> batch_start < length movies then
        (let batch = take step (drop batch_start movies);
             rows = movie_rows ld now batch
         in load_batches ld now movies step (batch_start + step)
              (total_loaded + length rows, fold merge_sql rows tbl))
      else (total_loaded, tbl))"
  by pat_completeness auto
termination
  by (relation "measure (\<lambda>(ld, now, movies, step, batch_start, acc). length movies - batch_start)")
     auto

declare load_batches.simps [simp del]

text \<open>\<open>load_movies\<close>: \<open>range\<close> raises \<open>ValueError\<close> on step 0 and is empty on a negative
  step. \<open>now\<close> is the reading of the clock taken for \<open>ingested_at\<close>.\<close>

definition load_movies ::
  "SnowflakeLoader \<Rightarrow> string \<Rightarrow> jdict list \<Rightarrow> int \<Rightarrow> movie_row list
     \<Rightarrow> (exn + nat) \<times> movie_row list" where
  "load_movies ld now movies batch_size tbl =
     (if movies = [] then (Inr 0, tbl)
      else if batch_size = 0 then (Inl ValueError, tbl)
      else if batch_size < 0 then (Inr 0, tbl)
      else
        case load_batches ld now movies (nat batch_size) 0 (0, tbl) of
          (total_loaded, tbl') \<Rightarrow> (Inr total_loaded, tbl'))"

definition load_genres ::
  "SnowflakeLoader \<Rightarrow> string \<Rightarrow> jdict list \<Rightarrow> genre_row list \<Rightarrow> nat \<times> genre_row list" where
  "load_genres ld now genres tbl =
     (if genres = [] then (0, tbl)
      else (1, tbl @ [\<lparr>genres_raw_data = genres, genres_ingested_at = now,
                        genres_batch_id = batch_id ld\<rparr>]))"

definition get_row_count :: "'a list \<Rightarrow> nat" where
  "get_row_count tbl = length tbl"

section \<open>main.py: the pipeline\<close>

record PipelineConfig =
  batch_size :: int
  tmdb :: TMDbConfig

text \<open>What a run reads from outside the program: the clock (as the ISO strings and the
  rounded duration it becomes) and the UUID of the loader.\<close>

record run_env =
  start_time :: string
  genres_now :: string
  movies_now :: string
  duration_seconds :: nat
  uuid4 :: string

text \<open>The \<open>stats\<close> dict: string keys in insertion order, and values that are integers,
  strings or a duration (in hundredths of a second). \<open>stats[k] = v\<close> is
  \<open>AList.update k v stats\<close>, and \<open>map_of stats k\<close> reads a key.\<close>

datatype stat = IntStat int | StrStat string | SecondsStat nat

type_synonym stats = "(string \<times> stat) list"

definition initial_stats :: "run_env \<Rightarrow> stats" where
  "initial_stats env =
     [(''start_time'', StrStat (start_time env)),
      (''pages_fetched'', IntStat 0),
      (''movies_extracted'', IntStat 0),
      (''genres_extracted'', IntStat 0),
      (''movies_loaded'', IntStat 0),
      (''genres_loaded'', IntStat 0),
      (''errors'', IntStat 0),
      (''duration_seconds'', IntStat 0)]"

text \<open>\<open>run_pipeline\<close>, with the configuration already loaded and the store reachable.
  The result is the returned dict or the exception that ends the run, with the
  extractor's state and the tables as the run leaves them.\<close>

definition run_pipeline ::
  "server \<Rightarrow> PipelineConfig \<Rightarrow> run_env \<Rightarrow> int option \<Rightarrow> bool \<Rightarrow> db
     \<Rightarrow> (exn + stats) \<times> state \<times> db" where
  "run_pipeline srv cfg env pages dry_run d =
     (let pages_to_fetch' = pages_or pages (pages_to_fetch (tmdb cfg));
          stats0 = initial_stats env
      in
      case extract_genre_list srv init_state of
        (Inl e, s1) \<Rightarrow> (Inl e, s1, d)
      | (Inr genres, s1) \<Rightarrow>
          (let stats1 = AList.update ''genres_extracted'' (IntStat (int (length genres))) stats0 in
           case extract_movies_with_details srv (tmdb cfg) (Some pages_to_fetch') s1 of
             (Some e, s2) \<Rightarrow> (Inl e, s2, d)
           | (None, s2) \<Rightarrow>
               (let movies = yielded s2;
                    stats2 = AList.update ''movies_extracted'' (IntStat (int (length movies))) stats1;
                    stats3 = AList.update ''pages_fetched'' (IntStat pages_to_fetch') stats2
                in
                if dry_run then
                  (Inr (AList.update ''duration_seconds'' (SecondsStat (duration_seconds env))
                          stats3),
                   s2, d)
                else
                  (let ld = \<lparr>batch_id = uuid4 env\<rparr>;
                       (genres_loaded, gtbl) =
                          load_genres ld (genres_now env) genres (raw_genres d);
                       stats4 = AList.update ''genres_loaded'' (IntStat (int genres_loaded)) stats3
                   in
                   case load_movies ld (movies_now env) movies (batch_size cfg) (raw_movies d) of
                     (Inl e, mtbl) \<Rightarrow> (Inl e, s2, \<lparr>raw_movies = mtbl, raw_genres = gtbl\<rparr>)
                   | (Inr movies_loaded, mtbl) \<Rightarrow>
                       (let stats5 = AList.update ''movies_loaded''
                                       (IntStat (int movies_loaded)) stats4
                        in
                        (Inr (AList.update ''duration_seconds''
                                (SecondsStat (duration_seconds env)) stats5),
                         s2, \<lparr>raw_movies = mtbl, raw_genres = gtbl\<rparr>))))))"

section \<open>Notions used in the statements\<close>

text \<open>The events a call added to the trace, from the state it started in and the state
  it ended in.\<close>

definition events_since :: "state \<Rightarrow> state \<Rightarrow> event list" where
  "events_since s s' = drop (length (trace s)) (trace s')"

text \<open>The pages of the listing requests sent, the movie ids of the calls of
  \<open>extract_movie_detail\<close>, and the backoff sleeps, each in order.\<close>

fun listing_request :: "event \<Rightarrow> int list" where
  "listing_request (Sent (Popular p)) = [p]"
| "listing_request _ = []"

definition listing_requests :: "event list \<Rightarrow> int list" where
  "listing_requests evs = concat (map listing_request evs)"

fun detail_call :: "event \<Rightarrow> int option list" where
  "detail_call (Debug_fetching_detail k) = [k]"
| "detail_call _ = []"

definition detail_calls :: "event list \<Rightarrow> int option list" where
  "detail_calls evs = concat (map detail_call evs)"

fun backoff_sleep :: "event \<Rightarrow> nat list" where
  "backoff_sleep (Sleep_backoff d) = [d]"
| "backoff_sleep _ = []"

definition backoff_sleeps :: "event list \<Rightarrow> nat list" where
  "backoff_sleeps evs = concat (map backoff_sleep evs)"

text \<open>The outcomes of a request that the claims call retryable: a timeout, a connection
  failure, status 429 and status 500 or above.\<close>

definition retryable_outcome :: "outcome \<Rightarrow> bool" where
  "retryable_outcome out =
     (case out of
        Timeout \<Rightarrow> True
      | ConnectionError \<Rightarrow> True
      | Response code hdr body \<Rightarrow> code = 429 \<or> code \<ge> 500)"

text \<open>A client error: status 400 to 499 other than 429.\<close>

definition client_error :: "int \<Rightarrow> bool" where
  "client_error code = (400 \<le> code \<and> code \<le> 499 \<and> code \<noteq> 429)"

text \<open>The detail endpoint answers with the record of the movie asked for: every
  successful answer to \<open>/movie/{id}\<close> carries that id.\<close>

definition echoes_id :: "server \<Rightarrow> bool" where
  "echoes_id srv =
     (\<forall>n k code hdr body.
        srv n (Movie k) = Response code hdr body \<and> code < 400 \<longrightarrow> j_id body = k)"

text \<open>Every listing request succeeds at once and reports \<open>T\<close> total pages.\<close>

definition listing_total :: "server \<Rightarrow> int \<Rightarrow> bool" where
  "listing_total srv T =
     (\<forall>n p. \<exists>code hdr body.
        srv n (Popular p) = Response code hdr body \<and> code < 400 \<and> get_total_pages body = T)"

text \<open>A record with an id the loader accepts: present and not 0.\<close>

definition has_id :: "jdict \<Rightarrow> bool" where
  "has_id movie = (case j_id movie of None \<Rightarrow> False | Some n \<Rightarrow> n \<noteq> 0)"

text \<open>The invariant of the stream of \<open>extract_movies_with_details\<close>, relative to the state
  \<open>s0\<close> the call started from.\<close>

definition dedup_inv :: "server \<Rightarrow> state \<Rightarrow> state \<Rightarrow> bool" where
  "dedup_inv srv s0 s =
     (length (trace s0) \<le> length (trace s)
      \<and> distinct (detail_calls (events_since s0 s))
      \<and> set (detail_calls (events_since s0 s)) \<subseteq> seen_ids s
      \<and> (echoes_id srv \<longrightarrow>
            distinct (map j_id (yielded s)) \<and> j_id ` set (yielded s) \<subseteq> seen_ids s))"

text \<open>What a run gave back: whether it returned at all, and the dict it returned.\<close>

definition completed :: "(exn + stats) \<times> state \<times> db \<Rightarrow> bool" where
  "completed r = (case fst r of Inr st \<Rightarrow> True | Inl e \<Rightarrow> False)"

definition returned_stats :: "(exn + stats) \<times> state \<times> db \<Rightarrow> stats" where
  "returned_stats r = (case fst r of Inr st \<Rightarrow> st | Inl e \<Rightarrow> [])"

definition final_state :: "(exn + stats) \<times> state \<times> db \<Rightarrow> state" where
  "final_state r = fst (snd r)"

section \<open>Example data\<close>

definition movie :: "int \<Rightarrow> jdict" where
  "movie k = JDict (Some k) None None None ''''"

definition listing :: "jdict list \<Rightarrow> int \<Rightarrow> jdict" where
  "listing ms tp = JDict None (Some ms) (Some tp) None ''''"

definition no_content :: jdict where
  "no_content = JDict None None None None ''''"

definition ok :: "jdict \<Rightarrow> outcome" where
  "ok body = Response 200 NoHeader body"

definition genres_answer :: "jdict list \<Rightarrow> jdict" where
  "genres_answer gs = JDict None None None (Some gs) ''''"

text \<open>A server with one listing page of \<open>ms\<close>, whose detail endpoint answers the ids in
  \<open>bad\<close> with status \<open>code\<close> and every other id with its record.\<close>

definition one_page_server :: "jdict list \<Rightarrow> int set \<Rightarrow> int \<Rightarrow> server" where
  "one_page_server ms bad code n req =
     (case req of
        Popular p \<Rightarrow> ok (listing ms 1)
      | Movie k \<Rightarrow>
          (case k of
             None \<Rightarrow> Response 404 NoHeader no_content
           | Some i \<Rightarrow> if i \<in> bad then Response code NoHeader no_content else ok (movie i))
      | GenreList \<Rightarrow> ok (genres_answer (map movie [1..19])))"

text \<open>A server that reports \<open>T\<close> total pages, each page \<open>p\<close> listing the one movie \<open>p\<close>.\<close>

definition paged_server :: "int \<Rightarrow> server" where
  "paged_server T n req =
     (case req of
        Popular p \<Rightarrow> ok (listing [movie p] T)
      | Movie k \<Rightarrow> ok (JDict k None None None '''')
      | GenreList \<Rightarrow> ok (genres_answer []))"

definition example_env :: run_env where
  "example_env = \<lparr>start_time = ''2024-01-01T00:00:00+00:00'',
                   genres_now = ''2024-01-01T00:00:05+00:00'',
                   movies_now = ''2024-01-01T00:00:06+00:00'',
                   duration_seconds = 700,
                   uuid4 = ''run-1''\<rparr>"

definition example_config :: PipelineConfig where
  "example_config = \<lparr>batch_size = 100, tmdb = \<lparr>pages_to_fetch = 20\<rparr>\<rparr>"

definition empty_db :: db where
  "empty_db = \<lparr>raw_movies = [], raw_genres = []\<rparr>"

text \<open>A server with two pages that both list movies 1, 2 and 1 again.\<close>

definition repeating_server :: server where
  "repeating_server n req =
     (case req of
        Popular p \<Rightarrow> ok (listing [movie 1, movie 2, movie 1] 2)
      | Movie k \<Rightarrow> ok (JDict k None None None '''')
      | GenreList \<Rightarrow> ok no_content)"

text \<open>A server that answers every request with status 503.\<close>

definition unavailable_server :: server where
  "unavailable_server n req = Response 503 NoHeader no_content"

text \<open>A server whose detail endpoint answers every request with the record of movie
  99, whatever id is asked for.\<close>

definition mislabelling_server :: server where
  "mislabelling_server n req =
     (case req of
        Popular p \<Rightarrow> ok (listing [movie 1, movie 2] 1)
      | Movie k \<Rightarrow> ok (movie 99)
      | GenreList \<Rightarrow> ok no_content)"

text \<open>A landing table with one stale row for each of the movies 1 and 2, and the two
  movies with changed content.\<close>

definition stale_table :: "movie_row list" where
  "stale_table =
     [\<lparr>row_movie_id = 1, raw_data = no_content, source_url = ''old-url'',
        ingested_at = ''t0'', row_batch_id = ''run-0''\<rparr>,
      \<lparr>row_movie_id = 2, raw_data = no_content, source_url = ''old-url'',
        ingested_at = ''t0'', row_batch_id = ''run-0''\<rparr>]"

definition changed_movie :: "int \<Rightarrow> jdict" where
  "changed_movie k = JDict (Some k) None None None ''changed''"


text \<open>The run of the early-stop scenario: 10 pages requested from a server that has 3.\<close>

definition early_stop_run :: "(exn + stats) \<times> state \<times> db" where
  "early_stop_run =
     run_pipeline (paged_server 3) example_config example_env (Some 10) False empty_db"

section \<open>The API client: what one call of \<open>_get\<close> does\<close>

lemma listing_requests_append [simp]:
  "listing_requests (xs @ ys) = listing_requests xs @ listing_requests ys"
  by (simp add: listing_requests_def)

lemma listing_requests_Nil [simp]: "listing_requests [] = []"
  by (simp add: listing_requests_def)

lemma detail_calls_append [simp]: "detail_calls (xs @ ys) = detail_calls xs @ detail_calls ys"
  by (simp add: detail_calls_def)

lemma detail_calls_Nil [simp]: "detail_calls [] = []"
  by (simp add: detail_calls_def)

lemma events_since_append:
  "length (trace s0) \<le> length (trace s) \<Longrightarrow> trace s' = trace s @ evs \<Longrightarrow>
     events_since s0 s' = events_since s0 s @ evs"
  by (simp add: events_since_def)

text \<open>One attempt sends one request, leaves the extractor's locals alone and logs no
  detail call.\<close>

lemma get_attempt_frame:
  "get_attempt srv req s = (r, s') \<Longrightarrow>
     seen_ids s' = seen_ids s \<and> total_extracted s' = total_extracted s \<and> yielded s' = yielded s
     \<and> sent s' = sent s + 1 \<and> (\<exists>evs. trace s' = trace s @ evs \<and> detail_calls evs = [])"
  by (auto simp: get_attempt_def emit_def Let_def detail_calls_def
           split: outcome.splits retry_after.splits if_splits)

lemma get_attempt_retry:
  "get_attempt srv req s = (Inl e, s') \<Longrightarrow> retry_if_exception_type e \<Longrightarrow>
     retryable_outcome (srv (sent s) req)"
  by (auto simp: get_attempt_def emit_def Let_def retryable_outcome_def
           split: outcome.splits retry_after.splits if_splits)

lemma get_attempt_success:
  assumes att: "get_attempt srv req s = (Inr body, s')"
  shows "\<exists>n code hdr. srv n req = Response code hdr body \<and> code < 400"
proof (cases "srv (sent s) req")
  case (Response code hdr b)
  then have "b = body \<and> code < 400"
    using att by (auto simp: get_attempt_def Let_def split: retry_after.splits if_splits)
  with Response show ?thesis by blast
qed (use att in \<open>auto simp: get_attempt_def Let_def\<close>)

text \<open>The three facts about the retry loop are proved along its own recursion: an
  attempt either ends the loop or is followed by the loop at the next attempt number.\<close>

lemma retrying_frame:
  "retrying srv req k s = (r, s') \<Longrightarrow>
     seen_ids s' = seen_ids s \<and> total_extracted s' = total_extracted s \<and> yielded s' = yielded s
     \<and> (\<exists>evs. trace s' = trace s @ evs \<and> detail_calls evs = [])"
proof (induction srv req k s arbitrary: r s' rule: retrying.induct)
  case (1 srv req k s)
  obtain r1 s1 where a: "get_attempt srv req s = (r1, s1)" by (cases "get_attempt srv req s")
  note fr = get_attempt_frame[OF a]
  show ?case
  proof (cases r1)
    case (Inr b)
    with a "1.prems" fr show ?thesis by (simp add: retrying.simps[of srv req k s])
  next
    case (Inl e)
    show ?thesis
    proof (cases "retry_if_exception_type e \<and> \<not> k \<ge> stop_after_attempt")
      case False
      with a Inl "1.prems" fr show ?thesis
        by (auto simp add: retrying.simps[of srv req k s] split: if_splits)
    next
      case True
      with a Inl "1.prems"
      have r: "retrying srv req (k + 1) (emit [Sleep_backoff (backoff k)] s1) = (r, s')"
        by (simp add: retrying.simps[of srv req k s])
      from True have nn: "\<not> \<not> retry_if_exception_type e" and ns: "\<not> stop_after_attempt \<le> k"
        by simp_all
      from "1.IH"[OF a[symmetric] Inl nn ns r] fr show ?thesis
        by (auto simp add: emit_def detail_calls_def)
    qed
  qed
qed

lemma retrying_sent:
  "retrying srv req k s = (r, s') \<Longrightarrow>
     sent s + 1 \<le> sent s' \<and> sent s' \<le> sent s + 1 + (stop_after_attempt - k)
     \<and> (\<forall>i. sent s \<le> i \<and> i + 1 < sent s' \<longrightarrow> retryable_outcome (srv i req))"
proof (induction srv req k s arbitrary: r s' rule: retrying.induct)
  case (1 srv req k s)
  obtain r1 s1 where a: "get_attempt srv req s = (r1, s1)" by (cases "get_attempt srv req s")
  note fr = get_attempt_frame[OF a]
  show ?case
  proof (cases r1)
    case (Inr b)
    with a "1.prems" fr show ?thesis by (auto simp add: retrying.simps[of srv req k s])
  next
    case (Inl e)
    show ?thesis
    proof (cases "retry_if_exception_type e \<and> \<not> k \<ge> stop_after_attempt")
      case False
      with a Inl "1.prems" fr show ?thesis
        by (auto simp add: retrying.simps[of srv req k s] split: if_splits)
    next
      case True
      with a Inl "1.prems"
      have r: "retrying srv req (k + 1) (emit [Sleep_backoff (backoff k)] s1) = (r, s')"
        by (simp add: retrying.simps[of srv req k s])
      have ro: "retryable_outcome (srv (sent s) req)"
        using get_attempt_retry a Inl True by blast
      from True have nn: "\<not> \<not> retry_if_exception_type e" and ns: "\<not> stop_after_attempt \<le> k"
        by simp_all
      from "1.IH"[OF a[symmetric] Inl nn ns r] fr
      have ih: "sent s + 2 \<le> sent s'" "sent s' \<le> sent s + 2 + (stop_after_attempt - (k + 1))"
        "\<forall>i. sent s + 1 \<le> i \<and> i + 1 < sent s' \<longrightarrow> retryable_outcome (srv i req)"
        by (simp_all add: emit_def)
      have "retryable_outcome (srv i req)" if "sent s \<le> i" "i + 1 < sent s'" for i
        using that ro ih(3) by (cases "i = sent s") auto
      with ih True show ?thesis by auto
    qed
  qed
qed

lemma retrying_success:
  "retrying srv req k s = (Inr body, s') \<Longrightarrow>
     \<exists>n code hdr. srv n req = Response code hdr body \<and> code < 400"
proof (induction srv req k s arbitrary: s' rule: retrying.induct)
  case (1 srv req k s)
  obtain r1 s1 where a: "get_attempt srv req s = (r1, s1)" by (cases "get_attempt srv req s")
  show ?case
  proof (cases r1)
    case (Inr b)
    with a "1.prems" get_attempt_success[of srv req s body s1] show ?thesis
      by (simp add: retrying.simps[of srv req k s])
  next
    case (Inl e)
    show ?thesis
    proof (cases "retry_if_exception_type e \<and> \<not> k \<ge> stop_after_attempt")
      case False
      with a Inl "1.prems" show ?thesis
        by (auto simp add: retrying.simps[of srv req k s] split: if_splits)
    next
      case True
      with a Inl "1.prems"
      have r: "retrying srv req (k + 1) (emit [Sleep_backoff (backoff k)] s1) = (Inr body, s')"
        by (simp add: retrying.simps[of srv req k s])
      from True have nn: "\<not> \<not> retry_if_exception_type e" and ns: "\<not> stop_after_attempt \<le> k"
        by simp_all
      from "1.IH"[OF a[symmetric] Inl nn ns r] show ?thesis .
    qed
  qed
qed

lemma tmdb_get_success_at_once:
  assumes "srv (sent s) req = Response code hdr body" "code < 400"
  shows "tmdb_get srv req s =
           (Inr body, (emit [Sleep_request_delay, Sent req] s)\<lparr>sent := sent s + 1\<rparr>)"
  using assms
  by (simp add: tmdb_get_def retrying.simps[of srv req "Suc 0" s] get_attempt_def Let_def)

lemma tmdb_get_client_error:
  assumes "srv (sent s) req = Response code hdr body" "client_error code"
  shows "tmdb_get srv req s =
           (Inl ValueError, (emit [Sleep_request_delay, Sent req] s)\<lparr>sent := sent s + 1\<rparr>)"
  using assms
  by (simp add: tmdb_get_def retrying.simps[of srv req "Suc 0" s] get_attempt_def Let_def
        client_error_def)

text \<open>The simplification rules that evaluate the extractor on a concrete server.\<close>

lemmas extract_eval =
  extract_movies_with_details_def extract_popular_movies_def pages_loop.simps tmdb_get_def
  retrying.simps get_attempt_def detail_body_def extract_movie_detail_def
  extract_genre_list_def emit_def init_state_def pages_or_def get_results_def
  get_total_pages_def stop_after_attempt_def backoff_def wait_exponential_def Let_def
  movie_def listing_def ok_def no_content_def genres_answer_def collect_def
  events_since_def listing_requests_def detail_calls_def backoff_sleeps_def
  one_page_server_def paged_server_def

text \<open>
  \<^bold>\<open>C4\<close> (client errors are never retried). When the answer to the first attempt of a
  call of \<open>_get\<close> has a status from 400 to 499 other than 429, the call raises
  \<open>ValueError\<close> at once: it has sent exactly one request and slept only the fixed delay
  before it, with no backoff. In general a call sends at least one and at most five
  requests, and every request but its last was answered by a timeout, a connection
  failure, status 429 or a status of 500 or above: nothing else leads to another attempt.
\<close>

theorem client_errors_never_retried:
  "(srv (sent s) req = Response code hdr body \<and> client_error code \<longrightarrow>
      tmdb_get srv req s =
        (Inl ValueError, (emit [Sleep_request_delay, Sent req] s)\<lparr>sent := sent s + 1\<rparr>))
   \<and> sent s + 1 \<le> sent (snd (tmdb_get srv req s))
   \<and> sent (snd (tmdb_get srv req s)) \<le> sent s + 5
   \<and> (\<forall>i. sent s \<le> i \<and> i + 1 < sent (snd (tmdb_get srv req s)) \<longrightarrow>
          retryable_outcome (srv i req))"
proof -
  obtain r s' where g: "retrying srv req 1 s = (r, s')" by (cases "retrying srv req 1 s")
  from retrying_sent[OF g] g tmdb_get_client_error[of srv s req code hdr body] show ?thesis
    by (simp add: tmdb_get_def stop_after_attempt_def)
qed

text \<open>The witness: a 404 answer to the genre request ends the call after one request; a
  503 followed by a 404 ends it after two, the first of them answered retryably.\<close>

theorem client_errors_never_retried_witness:
  "client_error 404
   \<and> tmdb_get (\<lambda>n req. Response 404 NoHeader no_content) GenreList init_state =
       (Inl ValueError, init_state\<lparr>sent := 1, trace := [Sleep_request_delay, Sent GenreList]\<rparr>)
   \<and> sent (snd (tmdb_get (\<lambda>n req. Response (if n = 0 then 503 else 404) NoHeader no_content)
                  GenreList init_state)) = 2
   \<and> retryable_outcome (Response 503 NoHeader no_content)"
proof -
  let ?a = "\<lambda>(n::nat) (req::request). Response 404 NoHeader no_content"
  let ?b = "\<lambda>(n::nat) (req::request). Response (if n = 0 then 503 else 404) NoHeader no_content"
  have c: "client_error 404" by (simp add: client_error_def)
  have two: "sent (snd (tmdb_get ?b GenreList init_state)) = 2"
    by (simp add: extract_eval)
  from client_errors_never_retried[of ?a init_state GenreList 404 NoHeader no_content] c
  have one: "tmdb_get ?a GenreList init_state =
      (Inl ValueError, init_state\<lparr>sent := 1, trace := [Sleep_request_delay, Sent GenreList]\<rparr>)"
    by (simp add: init_state_def emit_def)
  from client_errors_never_retried[of ?b init_state GenreList 404 NoHeader no_content] two
  have "retryable_outcome (?b 0 GenreList)"
    by (simp add: init_state_def)
  with c one two show ?thesis by simp
qed

section \<open>The stream of \<open>extract_movies_with_details\<close>\<close>

text \<open>Each step of the stream keeps \<open>dedup_inv\<close>: a call of \<open>_get\<close>, the body of the
  loop over the list movies, that loop, and the loop over the pages.\<close>

lemma tmdb_get_inv:
  assumes "tmdb_get srv req s = (r, s')" "dedup_inv srv s0 s"
  shows "dedup_inv srv s0 s'"
proof -
  from assms(1) have "retrying srv req 1 s = (r, s')" by (simp add: tmdb_get_def)
  from retrying_frame[OF this] obtain evs where
    f: "seen_ids s' = seen_ids s" "yielded s' = yielded s" "trace s' = trace s @ evs"
       "detail_calls evs = []"
    by blast
  from assms(2) have len: "length (trace s0) \<le> length (trace s)" by (simp add: dedup_inv_def)
  from events_since_append[OF len f(3)] f assms(2) show ?thesis
    by (simp add: dedup_inv_def)
qed

lemma detail_body_inv:
  assumes "detail_body srv m s = (r, s')" "dedup_inv srv s0 s"
  shows "dedup_inv srv s0 s'"
proof (cases "j_id m \<in> seen_ids s")
  case True
  with assms show ?thesis by (simp add: detail_body_def Let_def)
next
  case False
  define s1 where
    "s1 = emit [Debug_fetching_detail (j_id m)] (s\<lparr>seen_ids := insert (j_id m) (seen_ids s)\<rparr>)"
  obtain r2 s2 where g: "retrying srv (Movie (j_id m)) 1 s1 = (r2, s2)"
    by (cases "retrying srv (Movie (j_id m)) 1 s1")
  from retrying_frame[OF g] obtain evs where
    f: "seen_ids s2 = seen_ids s1" "yielded s2 = yielded s1" "trace s2 = trace s1 @ evs"
       "detail_calls evs = []"
    by blast
  from assms(2) have len: "length (trace s0) \<le> length (trace s)" by (simp add: dedup_inv_def)
  have tr: "trace s2 = trace s @ (Debug_fetching_detail (j_id m) # evs)"
    using f(3) by (simp add: s1_def emit_def)
  have ev: "events_since s0 s2 = events_since s0 s @ (Debug_fetching_detail (j_id m) # evs)"
    by (rule events_since_append[OF len tr])
  have dc: "detail_calls (events_since s0 s2) = detail_calls (events_since s0 s) @ [j_id m]"
    using ev f(4) by (simp add: detail_calls_def)
  have seen2: "seen_ids s2 = insert (j_id m) (seen_ids s)"
    using f(1) by (simp add: s1_def emit_def)
  have y2: "yielded s2 = yielded s" using f(2) by (simp add: s1_def emit_def)
  have base: "dedup_inv srv s0 s2"
    using assms(2) False dc seen2 y2 tr by (auto simp add: dedup_inv_def)
  show ?thesis
  proof (cases r2)
    case (Inl e)
    with assms(1) False g have "s' = s2 \<or> s' = emit [Error_failed_detail (j_id m) e] s2"
      by (auto simp add: detail_body_def Let_def extract_movie_detail_def tmdb_get_def s1_def
               split: if_splits)
    then show ?thesis
    proof
      assume "s' = s2"
      with base show ?thesis by simp
    next
      assume e: "s' = emit [Error_failed_detail (j_id m) e] s2"
      have "events_since s0 s' = events_since s0 s2 @ [Error_failed_detail (j_id m) e]"
        using base e by (intro events_since_append) (simp_all add: dedup_inv_def emit_def)
      with base e show ?thesis by (simp add: dedup_inv_def emit_def detail_calls_def)
    qed
  next
    case (Inr detail)
    with assms(1) False g
    have s': "s' = s2\<lparr>total_extracted := total_extracted s2 + 1,
                       yielded := yielded s2 @ [detail]\<rparr>"
      by (auto simp add: detail_body_def Let_def extract_movie_detail_def tmdb_get_def s1_def)
    have ech: "echoes_id srv \<Longrightarrow> j_id detail = j_id m"
      using retrying_success[OF g[unfolded Inr]] by (auto simp add: echoes_id_def)
    have "events_since s0 s' = events_since s0 s2" by (simp add: s' events_since_def)
    with base s' ech y2 seen2 False assms(2) show ?thesis
      by (auto simp add: dedup_inv_def)
  qed
qed

lemma for_movies_inv:
  "for_movies (detail_body srv) ms s = (r, s') \<Longrightarrow> dedup_inv srv s0 s \<Longrightarrow> dedup_inv srv s0 s'"
proof (induction ms arbitrary: s)
  case Nil
  then show ?case by simp
next
  case (Cons m ms)
  obtain r1 s1 where b: "detail_body srv m s = (r1, s1)" by (cases "detail_body srv m s")
  from detail_body_inv[OF b Cons.prems(2)] have i1: "dedup_inv srv s0 s1" .
  show ?case
  proof (cases r1)
    case None
    with b Cons.prems(1) have "for_movies (detail_body srv) ms s1 = (r, s')" by simp
    from Cons.IH[OF this i1] show ?thesis .
  next
    case (Some e)
    with b Cons.prems(1) i1 show ?thesis by simp
  qed
qed

lemma pages_loop_inv:
  "pages_loop srv f n page s = (r, s') \<Longrightarrow> f = detail_body srv \<Longrightarrow> dedup_inv srv s0 s \<Longrightarrow>
     dedup_inv srv s0 s'"
proof (induction srv f n page s arbitrary: r s' rule: pages_loop.induct)
  case (1 srv f n page s)
  show ?case
  proof (cases "page > n")
    case True
    with "1.prems"(1,3) show ?thesis by (simp add: pages_loop.simps[of srv f n page s])
  next
    case False
    obtain r1 s1 where g: "tmdb_get srv (Popular page) s = (r1, s1)"
      by (cases "tmdb_get srv (Popular page) s")
    from tmdb_get_inv[OF g "1.prems"(3)] have i1: "dedup_inv srv s0 s1" .
    show ?thesis
    proof (cases r1)
      case (Inl e)
      with False g "1.prems"(1) i1 show ?thesis
        by (simp add: pages_loop.simps[of srv f n page s])
    next
      case (Inr data)
      obtain r2 s2 where fm: "for_movies f (get_results data) s1 = (r2, s2)"
        by (cases "for_movies f (get_results data) s1")
      from for_movies_inv[OF fm[unfolded "1.prems"(2)] i1] have i2: "dedup_inv srv s0 s2" .
      show ?thesis
      proof (cases "r2 = None \<and> \<not> page \<ge> get_total_pages data")
        case stop: False
        with False g Inr fm "1.prems"(1) i2 show ?thesis
          by (auto simp add: pages_loop.simps[of srv f n page s] split: option.splits if_splits)
      next
        case True
        with False g Inr fm "1.prems"(1) have rec: "pages_loop srv f n (page + 1) s2 = (r, s')"
          by (simp add: pages_loop.simps[of srv f n page s])
        from True have r2: "r2 = None" and np: "\<not> get_total_pages data \<le> page" by simp_all
        from "1.IH"[OF False g[symmetric] Inr fm[symmetric] r2 np rec "1.prems"(2) i2]
        show ?thesis .
      qed
    qed
  qed
qed

text \<open>
  \<^bold>\<open>C2\<close> (deduplication invariant), as amended. For every server, every
  configuration, every page limit and every state the call starts in, whether the stream
  of \<open>extract_movies_with_details\<close> runs to its end or is cut short by an exception:
  \<open>extract_movie_detail\<close> is called at most once per movie id, so an id that appears
  again on the same page or on a later one is skipped and its detail never fetched again;
  and when the detail endpoint answers with the record of the id it was asked for, no two
  records the stream yields carry the same id.
\<close>

theorem stream_yields_no_duplicate_ids:
  "distinct (detail_calls (events_since s (snd (extract_movies_with_details srv cfg pages s))))
   \<and> (echoes_id srv \<longrightarrow>
        distinct (map j_id (yielded (snd (extract_movies_with_details srv cfg pages s)))))"
proof -
  define s1 where "s1 = s\<lparr>seen_ids := {}, total_extracted := 0, yielded := []\<rparr>"
  obtain r s' where
    e: "pages_loop srv (detail_body srv) (pages_or pages (pages_to_fetch cfg)) 1 s1 = (r, s')"
    by (cases "pages_loop srv (detail_body srv) (pages_or pages (pages_to_fetch cfg)) 1 s1")
  have i0: "dedup_inv srv s s1"
    by (simp add: dedup_inv_def s1_def events_since_def)
  from pages_loop_inv[OF e refl i0] have "dedup_inv srv s s'" .
  with e show ?thesis
    by (simp add: extract_movies_with_details_def extract_popular_movies_def s1_def
          dedup_inv_def)
qed

text \<open>The witness: two pages that both list movies 1 and 2, the first of them twice
  over; the stream yields each once.\<close>

theorem stream_yields_no_duplicate_ids_witness:
  "echoes_id repeating_server
   \<and> yielded (snd (extract_movies_with_details repeating_server \<lparr>pages_to_fetch = 20\<rparr> (Some 2)
                    init_state)) = [movie 1, movie 2]
   \<and> listing_requests (trace (snd (extract_movies_with_details repeating_server
                    \<lparr>pages_to_fetch = 20\<rparr> (Some 2) init_state))) = [1, 2]
   \<and> distinct (map j_id (yielded (snd (extract_movies_with_details repeating_server
                    \<lparr>pages_to_fetch = 20\<rparr> (Some 2) init_state))))"
proof -
  have e: "echoes_id repeating_server"
    by (simp add: echoes_id_def repeating_server_def ok_def)
  have y: "yielded (snd (extract_movies_with_details repeating_server \<lparr>pages_to_fetch = 20\<rparr>
                    (Some 2) init_state)) = [movie 1, movie 2]"
    by (simp add: extract_eval repeating_server_def)
  have l: "listing_requests (trace (snd (extract_movies_with_details repeating_server
                    \<lparr>pages_to_fetch = 20\<rparr> (Some 2) init_state))) = [1, 2]"
    by (simp add: extract_eval repeating_server_def)
  from stream_yields_no_duplicate_ids[of init_state repeating_server "\<lparr>pages_to_fetch = 20\<rparr>"
      "Some 2"] e y l
  show ?thesis by simp
qed

text \<open>Where the claim as stated fails: the stream deduplicates on the ids of the list
  movies and yields the detail answers without looking at their ids. When the detail
  endpoint answers the requests for movies 1 and 2 with the record of movie 99 both
  times, the stream yields two records with the id 99.\<close>

theorem stream_yields_no_duplicate_ids_counterexample:
  "yielded (snd (extract_movies_with_details mislabelling_server \<lparr>pages_to_fetch = 20\<rparr>
                    (Some 1) init_state)) = [movie 99, movie 99]
   \<and> \<not> distinct (map j_id (yielded (snd (extract_movies_with_details mislabelling_server
                    \<lparr>pages_to_fetch = 20\<rparr> (Some 1) init_state))))"
  by (simp add: extract_eval mislabelling_server_def)

section \<open>Pagination\<close>

lemma for_movies_collect:
  "for_movies collect ms s = (None, s\<lparr>yielded := yielded s @ ms\<rparr>)"
  by (induction ms arbitrary: s) (simp_all add: collect_def)

text \<open>When every listing request succeeds and reports \<open>T\<close> pages, the loop started at
  \<open>page\<close> requests the pages from \<open>page\<close> up to the smaller of the limit and \<open>max T 1\<close>.\<close>

lemma pages_loop_collect:
  "pages_loop srv f n page s = (r, s') \<Longrightarrow> f = collect \<Longrightarrow> listing_total srv T \<Longrightarrow>
   1 \<le> page \<Longrightarrow> page \<le> max T 1 \<Longrightarrow>
     r = None
     \<and> (\<exists>evs. trace s' = trace s @ evs \<and> listing_requests evs = [page .. min n (max T 1)])"
proof (induction srv f n page s arbitrary: r s' rule: pages_loop.induct)
  case (1 srv f n page s)
  show ?case
  proof (cases "page > n")
    case True
    with "1.prems"(1) show ?thesis by (simp add: pages_loop.simps[of srv f n page s])
  next
    case False
    from "1.prems"(3) obtain code hdr data where
      a: "srv (sent s) (Popular page) = Response code hdr data" "code < 400"
         "get_total_pages data = T"
      unfolding listing_total_def by blast
    define s1 where
      "s1 = (emit [Sleep_request_delay, Sent (Popular page)] s)\<lparr>sent := sent s + 1\<rparr>"
    define s2 where "s2 = s1\<lparr>yielded := yielded s1 @ get_results data\<rparr>"
    have g: "tmdb_get srv (Popular page) s = (Inr data, s1)"
      unfolding s1_def by (rule tmdb_get_success_at_once[of srv s "Popular page", OF a(1,2)])
    have fm: "for_movies f (get_results data) s1 = (None, s2)"
      unfolding s2_def "1.prems"(2) by (rule for_movies_collect)
    have tr2: "trace s2 = trace s @ [Sleep_request_delay, Sent (Popular page)]"
      by (simp add: s2_def s1_def emit_def)
    show ?thesis
    proof (cases "page \<ge> T")
      case True
      with False g fm a(3) "1.prems"(1) have "r = None" "s' = s2"
        by (simp_all add: pages_loop.simps[of srv f n page s])
      moreover have "[page .. min n (max T 1)] = [page]"
      proof -
        from True "1.prems"(4,5) False have "min n (max T 1) = page" by simp
        then show ?thesis by simp
      qed
      ultimately show ?thesis using tr2 by (simp add: listing_requests_def)
    next
      case more: False
      with False g fm a(3) "1.prems"(1) have rec: "pages_loop srv f n (page + 1) s2 = (r, s')"
        by (simp add: pages_loop.simps[of srv f n page s])
      from more a(3) have np: "\<not> get_total_pages data \<le> page" by simp
      from more have b: "1 \<le> page + 1" "page + 1 \<le> max T 1" using "1.prems"(4) by simp_all
      from "1.IH"[OF False g[symmetric] refl fm[symmetric] refl np rec "1.prems"(2,3) b]
      obtain evs where e: "r = None" "trace s' = trace s2 @ evs"
          "listing_requests evs = [page + 1 .. min n (max T 1)]" by blast
      from more False "1.prems"(4) have "page \<le> min n (max T 1)" by simp
      then have "[page .. min n (max T 1)] = page # [page + 1 .. min n (max T 1)]"
        by (simp add: upto_rec1)
      with e tr2 show ?thesis by (simp add: listing_requests_def)
    qed
  qed
qed

lemma paged_listing_total: "listing_total (paged_server T) T"
  by (simp add: listing_total_def paged_server_def ok_def listing_def get_total_pages_def)

text \<open>
  \<^bold>\<open>C5\<close> (pagination bound), as amended. Let \<open>L\<close> be the effective limit: the requested
  \<open>page_limit\<close>, or the configured default when none or 0 is requested. When every
  listing request succeeds and reports the same \<open>total_pages = T\<close>,
  \<open>extract_popular_movies\<close>, consumed on its own as \<open>list(...)\<close> consumes it, runs
  to its end and sends exactly the listing requests for
  pages \<open>1, 2, ..., min L (max T 1)\<close>, in this order, and no other (none at all when
  \<open>L < 1\<close>). For \<open>L \<ge> 1\<close> and \<open>T \<ge> 1\<close> these are \<open>min L T\<close> requests.
\<close>

theorem listing_requests_bound:
  assumes "listing_total srv T"
  shows "fst (extract_popular_movies srv cfg pages collect s) = None
     \<and> listing_requests (events_since s (snd (extract_popular_movies srv cfg pages collect s)))
         = [1 .. min (pages_or pages (pages_to_fetch cfg)) (max T 1)]"
proof -
  obtain r s' where e: "pages_loop srv collect (pages_or pages (pages_to_fetch cfg)) 1 s = (r, s')"
    by (cases "pages_loop srv collect (pages_or pages (pages_to_fetch cfg)) 1 s")
  from pages_loop_collect[OF e refl assms] obtain evs where
    "r = None" "trace s' = trace s @ evs"
    "listing_requests evs = [1 .. min (pages_or pages (pages_to_fetch cfg)) (max T 1)]"
    by auto
  with e show ?thesis by (simp add: extract_popular_movies_def events_since_def)
qed

text \<open>The witness is the scenario of the claim: \<open>total_pages = 3\<close> and a requested limit
  of 10 give the requests for pages 1, 2 and 3.\<close>

theorem listing_requests_bound_witness:
  "listing_total (paged_server 3) 3
   \<and> fst (extract_popular_movies (paged_server 3) \<lparr>pages_to_fetch = 20\<rparr> (Some 10) collect
            init_state) = None
   \<and> listing_requests (events_since init_state
         (snd (extract_popular_movies (paged_server 3) \<lparr>pages_to_fetch = 20\<rparr> (Some 10) collect
                 init_state)))
       = [1, 2, 3]"
proof -
  have "[1 .. min (pages_or (Some 10) (pages_to_fetch \<lparr>pages_to_fetch = 20\<rparr>)) (max 3 1)]
          = [1, 2, (3::int)]"
    by (simp add: pages_or_def upto.simps)
  with listing_requests_bound[OF paged_listing_total, of 3 "\<lparr>pages_to_fetch = 20\<rparr>" "Some 10"
         init_state]
    paged_listing_total[of 3]
  show ?thesis by simp
qed

text \<open>Where the claim as stated fails: a server that reports \<open>total_pages = 0\<close> is still
  asked for page 1 (one request, not \<open>min 10 0 = 0\<close>), and a requested limit of 0 is
  replaced by the default of 20, so that all 3 pages are requested (not \<open>min 0 3 = 0\<close>).\<close>

theorem listing_requests_bound_counterexample:
  "length (listing_requests (events_since init_state
      (snd (extract_popular_movies (paged_server 0) \<lparr>pages_to_fetch = 20\<rparr> (Some 10) collect
              init_state))))
     \<noteq> nat (min 10 0)
   \<and> length (listing_requests (events_since init_state
      (snd (extract_popular_movies (paged_server 3) \<lparr>pages_to_fetch = 20\<rparr> (Some 0) collect
              init_state))))
     \<noteq> nat (min 0 3)"
  by (simp add: extract_eval)





section \<open>Failures while fetching one movie's detail\<close>

text \<open>
  \<^bold>\<open>C3\<close> (per-item failure containment), evaluated where the code departs from it. The
  listing page names movies 7 and 8. When the detail request for movie 7 is answered
  with 404, the \<open>ValueError\<close> is caught, the failure is logged and movie 8 is fetched and
  yielded. When it is answered with 503 on all five attempts, the decorator raises
  \<open>RetryError\<close>, which the \<open>except (ValueError, TMDbAPIError)\<close> clause does not name:
  the exception leaves the generator, nothing is yielded, the detail of movie 8 is never
  asked for, and \<open>run_pipeline\<close> ends with that exception.
\<close>

theorem exhausted_retries_abort_the_stream:
  "extract_movies_with_details (one_page_server [movie 7, movie 8] {7} 404)
       \<lparr>pages_to_fetch = 20\<rparr> (Some 1) init_state
     = (None,
        \<lparr>sent = 3,
          trace = [Sleep_request_delay, Sent (Popular 1),
                   Debug_fetching_detail (Some 7), Sleep_request_delay, Sent (Movie (Some 7)),
                   Error_failed_detail (Some 7) ValueError,
                   Debug_fetching_detail (Some 8), Sleep_request_delay, Sent (Movie (Some 8))],
          seen_ids = {Some 7, Some 8}, total_extracted = 1, yielded = [movie 8]\<rparr>)
   \<and> fst (extract_movies_with_details (one_page_server [movie 7, movie 8] {7} 503)
            \<lparr>pages_to_fetch = 20\<rparr> (Some 1) init_state)
       = Some (RetryError TMDbAPIError)
   \<and> yielded (snd (extract_movies_with_details (one_page_server [movie 7, movie 8] {7} 503)
            \<lparr>pages_to_fetch = 20\<rparr> (Some 1) init_state)) = []
   \<and> detail_calls (trace (snd (extract_movies_with_details
            (one_page_server [movie 7, movie 8] {7} 503)
            \<lparr>pages_to_fetch = 20\<rparr> (Some 1) init_state))) = [Some 7]
   \<and> fst (run_pipeline (one_page_server [movie 7, movie 8] {7} 503) example_config
            example_env (Some 1) False empty_db)
       = Inl (RetryError TMDbAPIError)"
  by (simp add: extract_eval run_pipeline_def example_config_def insert_commute)

section \<open>The backoff\<close>

lemma backoff_eq: "backoff k = max 1 (min (2 ^ (k - 1)) 30)"
  by (simp add: backoff_def wait_exponential_def)

text \<open>
  \<^bold>\<open>C7\<close> (shape of the backoff). The delay before the next attempt is
  \<open>2 ^ (attempt_number - 1)\<close> seconds, kept between 1 and 30: it never decreases with the
  attempt number and doubles while below the cap. It is a function of the attempt number
  alone: the four sleeps between the five attempts of a call that is answered 503 every
  time are exactly 1, 2, 4 and 8 seconds, with no random part; and a call that is answered
  with a client error sleeps no backoff at all.
\<close>

theorem backoff_is_exponential_without_jitter:
  "backoff k = max 1 (min (2 ^ (k - 1)) 30)
   \<and> 1 \<le> backoff k \<and> backoff k \<le> 30
   \<and> backoff k \<le> backoff (k + 1)
   \<and> map backoff [1, 2, 3, 4] = [1, 2, 4, 8]
   \<and> backoff_sleeps (trace (snd (tmdb_get unavailable_server GenreList init_state)))
       = [1, 2, 4, 8]
   \<and> fst (tmdb_get unavailable_server GenreList init_state) = Inl (RetryError TMDbAPIError)
   \<and> backoff_sleeps (trace (snd (tmdb_get (\<lambda>n req. Response 404 NoHeader no_content)
                                      GenreList init_state))) = []"
proof -
  have mono: "backoff k \<le> backoff (k + 1)"
  proof -
    have clamp: "max (1::nat) (min a 30) \<le> max 1 (min b 30)" if "a \<le> b" for a b
      using that by (auto simp add: min_def max_def)
    have "(2::nat) ^ (k - 1) \<le> 2 ^ (k + 1 - 1)" by (rule power_increasing) simp_all
    then show ?thesis unfolding backoff_eq by (rule clamp)
  qed
  have ev: "map backoff [1, 2, 3, 4] = [1, 2, 4, 8]"
    by (simp add: backoff_eq numeral_eq_Suc)
  have tr: "backoff_sleeps (trace (snd (tmdb_get unavailable_server GenreList init_state)))
       = [1, 2, 4, 8]"
    by (simp add: extract_eval unavailable_server_def)
  have ex: "fst (tmdb_get unavailable_server GenreList init_state) = Inl (RetryError TMDbAPIError)"
    by (simp add: extract_eval unavailable_server_def)
  have none: "backoff_sleeps (trace (snd (tmdb_get (\<lambda>n req. Response 404 NoHeader no_content)
                                      GenreList init_state))) = []"
    by (simp add: extract_eval)
  show ?thesis
    using mono ev tr ex none by (simp add: backoff_eq)
qed

section \<open>Loading the movies\<close>

text \<open>The rows \<open>load_movies\<close> builds from a list of movies: one per movie with an id the
  loader accepts, in order, each with the run's clock reading and batch id.\<close>

lemma movie_rows_Nil [simp]: "movie_rows ld now [] = []"
  by (simp add: movie_rows_def)

lemma movie_rows_append: "movie_rows ld now (xs @ ys) = movie_rows ld now xs @ movie_rows ld now ys"
  by (simp add: movie_rows_def)

lemma movie_rows_Cons_has_id:
  "has_id m \<Longrightarrow> movie_rows ld now (m # ms) =
     \<lparr>row_movie_id = the (j_id m), raw_data = m,
       source_url = ''https://api.themoviedb.org/3/movie/{id}'',
       ingested_at = now, row_batch_id = batch_id ld\<rparr> # movie_rows ld now ms"
  by (auto simp add: movie_rows_def has_id_def split: option.splits)

lemma movie_rows_Cons_no_id:
  "\<not> has_id m \<Longrightarrow> movie_rows ld now (m # ms) = movie_rows ld now ms"
  by (auto simp add: movie_rows_def has_id_def split: option.splits)

lemma movie_rows_ids:
  "map (Some \<circ> row_movie_id) (movie_rows ld now ms) = map j_id (filter has_id ms)"
proof (induction ms)
  case Nil
  show ?case by simp
next
  case (Cons m ms)
  then show ?case
    by (cases "has_id m")
       (auto simp add: movie_rows_Cons_has_id movie_rows_Cons_no_id has_id_def split: option.splits)
qed

lemma movie_rows_length: "length (movie_rows ld now ms) = length (filter has_id ms)"
  using arg_cong[OF movie_rows_ids, of length ld now ms] by simp

lemma movie_rows_distinct:
  assumes "distinct (map j_id ms)"
  shows "distinct (map row_movie_id (movie_rows ld now ms))"
proof -
  from assms have "distinct (map j_id (filter has_id ms))" by (rule distinct_map_filter)
  then have "distinct (map (Some \<circ> row_movie_id) (movie_rows ld now ms))"
    by (simp only: movie_rows_ids)
  then show ?thesis by (simp add: distinct_map comp_def inj_on_def)
qed

lemma load_batches_fold:
  "0 < step \<Longrightarrow>
   load_batches ld now movies step start (tot, tbl) =
     (tot + length (movie_rows ld now (drop start movies)),
      fold merge_sql (movie_rows ld now (drop start movies)) tbl)"
proof (induction ld now movies step start "(tot, tbl)" arbitrary: tot tbl rule: load_batches.induct)
  case (1 ld now movies step start tot tbl)
  show ?case
  proof (cases "start < length movies")
    case False
    then show ?thesis by (simp add: load_batches.simps[of ld now movies step start tot tbl])
  next
    case True
    have split: "drop start movies = take step (drop start movies) @ drop (start + step) movies"
      by (metis append_take_drop_id drop_drop add.commute)
    have rows: "movie_rows ld now (drop start movies) =
        movie_rows ld now (take step (drop start movies)) @ movie_rows ld now (drop (start + step) movies)"
      by (subst split) (simp only: movie_rows_append)
    from True "1.prems" have c: "0 < step \<and> start < length movies" by simp
    have "load_batches ld now movies step start (tot, tbl) =
          load_batches ld now movies step (start + step)
            (tot + length (movie_rows ld now (take step (drop start movies))),
             fold merge_sql (movie_rows ld now (take step (drop start movies))) tbl)"
      using c by (simp add: load_batches.simps[of ld now movies step start tot tbl] Let_def)
    also have "\<dots> = (tot + length (movie_rows ld now (take step (drop start movies)))
                        + length (movie_rows ld now (drop (start + step) movies)),
                   fold merge_sql (movie_rows ld now (drop (start + step) movies))
                     (fold merge_sql (movie_rows ld now (take step (drop start movies))) tbl))"
      by (rule "1.hyps"[OF c refl refl "1.prems"])
    finally show ?thesis by (simp add: rows)
  qed
qed

lemma load_movies_fold:
  "0 < bsz \<Longrightarrow>
   load_movies ld now movies bsz tbl =
     (Inr (length (movie_rows ld now movies)), fold merge_sql (movie_rows ld now movies) tbl)"
  by (simp add: load_movies_def load_batches_fold)

lemma merge_sql_fresh:
  "row_movie_id r \<notin> row_movie_id ` set tbl \<Longrightarrow> merge_sql r tbl = tbl @ [r]"
  by (simp add: merge_sql_def)

lemma fold_merge_fresh:
  "distinct (map row_movie_id (tbl @ rs)) \<Longrightarrow> fold merge_sql rs tbl = tbl @ rs"
proof (induction rs arbitrary: tbl)
  case Nil
  show ?case by simp
next
  case (Cons r rs)
  from Cons.prems have fresh: "row_movie_id r \<notin> row_movie_id ` set tbl" by auto
  from Cons.prems have "distinct (map row_movie_id ((tbl @ [r]) @ rs))" by simp
  from Cons.IH[OF this] fresh show ?case by (simp add: merge_sql_fresh)
qed

lemma merge_sql_overwrite:
  assumes "row_movie_id old = row_movie_id new"
    and "row_movie_id new \<notin> row_movie_id ` set xs"
    and "row_movie_id new \<notin> row_movie_id ` set ys"
  shows "merge_sql new (xs @ old # ys) = xs @ new # ys"
proof -
  have keep: "row_movie_id new \<notin> row_movie_id ` set zs \<Longrightarrow>
      map (\<lambda>target. if row_movie_id target = row_movie_id new
             then target\<lparr>raw_data := raw_data new, source_url := source_url new,
                        ingested_at := ingested_at new, row_batch_id := row_batch_id new\<rparr>
             else target) zs = zs" for zs
    by (induction zs) auto
  have upd: "old\<lparr>raw_data := raw_data new, source_url := source_url new,
                 ingested_at := ingested_at new, row_batch_id := row_batch_id new\<rparr> = new"
    using assms(1) by simp
  show ?thesis
    using assms by (simp add: merge_sql_def keep upd)
qed

lemma fold_merge_overwrite:
  "map row_movie_id olds = map row_movie_id news \<Longrightarrow>
   distinct (map row_movie_id (done @ news)) \<Longrightarrow>
   fold merge_sql news (done @ olds) = done @ news"
proof (induction news arbitrary: olds "done")
  case Nil
  then show ?case by simp
next
  case (Cons new news)
  then obtain old olds' where o: "olds = old # olds'" "row_movie_id old = row_movie_id new"
      "map row_movie_id olds' = map row_movie_id news"
    by (cases olds) auto
  from Cons.prems(2) have a: "row_movie_id new \<notin> row_movie_id ` set done" by auto
  from Cons.prems(2) have "row_movie_id new \<notin> set (map row_movie_id news)" by auto
  with o(3) have b: "row_movie_id new \<notin> row_movie_id ` set olds'" by (metis set_map)
  from Cons.prems(2) have d: "distinct (map row_movie_id ((done @ [new]) @ news))" by simp
  have "fold merge_sql (new # news) (done @ olds) = fold merge_sql news ((done @ [new]) @ olds')"
    using merge_sql_overwrite[OF o(2) a b] o(1) by simp
  also have "\<dots> = (done @ [new]) @ news" by (rule Cons.IH[OF o(3) d])
  finally show ?case by simp
qed

lemma movie_rows_same_ids:
  "map row_movie_id (movie_rows ld1 now1 ms) = map row_movie_id (movie_rows ld2 now2 ms)"
proof -
  have "map the (map (Some \<circ> row_movie_id) (movie_rows ld1 now1 ms)) =
        map the (map (Some \<circ> row_movie_id) (movie_rows ld2 now2 ms))"
    by (simp only: movie_rows_ids)
  then show ?thesis by (simp add: comp_def)
qed

lemma movie_rows_raw_data: "map raw_data (movie_rows ld now ms) = filter has_id ms"
proof (induction ms)
  case Nil
  show ?case by simp
next
  case (Cons m ms)
  then show ?case
    by (cases "has_id m") (simp_all add: movie_rows_Cons_has_id movie_rows_Cons_no_id)
qed

lemma movie_rows_context:
  "row \<in> set (movie_rows ld now ms) \<Longrightarrow> ingested_at row = now \<and> row_batch_id row = batch_id ld"
proof (induction ms)
  case Nil
  then show ?case by simp
next
  case (Cons m ms)
  then show ?case
    by (cases "has_id m") (auto simp add: movie_rows_Cons_has_id movie_rows_Cons_no_id)
qed

text \<open>Two runs over the same movies, the second on the table the first one left: the
  second run overwrites every row the first one inserted.\<close>

lemma load_movies_twice:
  assumes "distinct (map j_id movies)" and "0 < bsz"
  shows "load_movies ld1 now1 movies bsz [] =
           (Inr (length (filter has_id movies)), movie_rows ld1 now1 movies)"
    and "load_movies ld2 now2 movies bsz (movie_rows ld1 now1 movies) =
           (Inr (length (filter has_id movies)), movie_rows ld2 now2 movies)"
proof -
  have d1: "distinct (map row_movie_id (movie_rows ld1 now1 movies))"
   and d2: "distinct (map row_movie_id (movie_rows ld2 now2 movies))"
    using assms(1) by (rule movie_rows_distinct)+
  show "load_movies ld1 now1 movies bsz [] =
           (Inr (length (filter has_id movies)), movie_rows ld1 now1 movies)"
    using fold_merge_fresh[of "[]" "movie_rows ld1 now1 movies"] d1 assms(2)
    by (simp add: load_movies_fold movie_rows_length)
  have "fold merge_sql (movie_rows ld2 now2 movies) ([] @ movie_rows ld1 now1 movies)
          = [] @ movie_rows ld2 now2 movies"
    by (rule fold_merge_overwrite[OF movie_rows_same_ids]) (simp add: d2)
  then show "load_movies ld2 now2 movies bsz (movie_rows ld1 now1 movies)
         = (Inr (length (filter has_id movies)), movie_rows ld2 now2 movies)"
    using assms(2) by (simp add: load_movies_fold movie_rows_length)
qed

lemma has_id_filter_ids:
  "map j_id (filter has_id ms) =
     filter (\<lambda>x. case x of None \<Rightarrow> False | Some n \<Rightarrow> n \<noteq> 0) (map j_id ms)"
  by (induction ms) (simp_all add: has_id_def)

lemma movie_rows_source_url:
  "row \<in> set (movie_rows ld now ms) \<Longrightarrow>
     source_url row = ''https://api.themoviedb.org/3/movie/{id}''"
proof (induction ms)
  case Nil
  then show ?case by simp
next
  case (Cons m ms)
  then show ?case
    by (cases "has_id m") (auto simp add: movie_rows_Cons_has_id movie_rows_Cons_no_id)
qed

text \<open>A run over a table that holds one row for each of the movies, whatever the other
  columns of those rows hold: every row is overwritten.\<close>

lemma load_movies_overwrites:
  assumes ids: "map (Some \<circ> row_movie_id) olds = map j_id movies"
    and dist: "distinct (map j_id movies)"
    and all: "\<forall>m \<in> set movies. has_id m"
    and pos: "0 < bsz"
  shows "load_movies ld now movies bsz olds = (Inr (length movies), movie_rows ld now movies)"
proof -
  from all have f: "filter has_id movies = movies" by (simp add: filter_id_conv)
  have "map the (map (Some \<circ> row_movie_id) olds) =
        map the (map (Some \<circ> row_movie_id) (movie_rows ld now movies))"
    by (simp only: movie_rows_ids ids f)
  then have same: "map row_movie_id olds = map row_movie_id (movie_rows ld now movies)"
    by (simp add: comp_def)
  have d: "distinct (map row_movie_id ([] @ movie_rows ld now movies))"
    using movie_rows_distinct[OF dist] by simp
  have "fold merge_sql (movie_rows ld now movies) ([] @ olds) = [] @ movie_rows ld now movies"
    by (rule fold_merge_overwrite[OF same d])
  then show ?thesis
    using pos by (simp add: load_movies_fold movie_rows_length f)
qed

text \<open>
  \<^bold>\<open>C1\<close> (load idempotence), as amended. Take \<open>N\<close> records whose ids are distinct, present
  and not 0, positive batch sizes and an empty landing table. A first run of
  \<open>load_movies\<close> inserts \<open>N\<close> rows. A second run, with its own batch id and clock
  reading, over the same records or over records with the same ids and changed content,
  reports \<open>N\<close> rows again and leaves exactly \<open>N\<close> rows: one per id, in the order of the
  records, each with the record of the second run as payload and with the second run's
  source URL, ingestion time and batch id. That is the very table a single run of the
  second loader on an empty table produces, and the second run leaves it on any table
  that held one row per id before, whatever the other columns of those rows held.
\<close>

theorem load_movies_idempotent:
  assumes "distinct (map j_id movies)"
    and "\<forall>m \<in> set movies. has_id m"
    and "map j_id movies' = map j_id movies"
    and "0 < bsz1" and "0 < bsz2"
  shows "let run1 = load_movies ld1 now1 movies bsz1 [];
             run2 = load_movies ld2 now2 movies' bsz2 (snd run1)
         in fst run1 = Inr (length movies) \<and> get_row_count (snd run1) = length movies
          \<and> fst run2 = Inr (length movies) \<and> get_row_count (snd run2) = length movies
          \<and> map (Some \<circ> row_movie_id) (snd run2) = map j_id movies
          \<and> map raw_data (snd run2) = movies'
          \<and> (\<forall>row \<in> set (snd run2).
                source_url row = ''https://api.themoviedb.org/3/movie/{id}''
                \<and> ingested_at row = now2 \<and> row_batch_id row = batch_id ld2)
          \<and> snd run2 = snd (load_movies ld2 now2 movies' bsz2 [])
          \<and> (map (Some \<circ> row_movie_id) olds = map j_id movies \<longrightarrow>
                load_movies ld2 now2 movies' bsz2 olds = run2)"
proof -
  from assms(2) have all: "filter has_id movies = movies" by (simp add: filter_id_conv)
  have d': "distinct (map j_id movies')" using assms(1,3) by simp
  have "map j_id (filter has_id movies') = map j_id movies'"
    unfolding has_id_filter_ids assms(3)
    using all has_id_filter_ids[of movies] by simp
  then have "length (filter has_id movies') = length movies'"
    by (metis length_map)
  then have all'': "filter has_id movies' = movies'"
    by (metis length_filter_less less_irrefl filter_True)
  then have all': "\<forall>m \<in> set movies'. has_id m" by (metis filter_id_conv)
  have len: "length movies' = length movies" using assms(3) by (metis length_map)
  have run1: "load_movies ld1 now1 movies bsz1 [] = (Inr (length movies), movie_rows ld1 now1 movies)"
    using load_movies_twice(1)[OF assms(1,4), of ld1 now1] all by simp
  have ids1: "map (Some \<circ> row_movie_id) (movie_rows ld1 now1 movies) = map j_id movies'"
    by (simp only: movie_rows_ids all assms(3))
  have run2: "load_movies ld2 now2 movies' bsz2 (movie_rows ld1 now1 movies) =
      (Inr (length movies'), movie_rows ld2 now2 movies')"
    by (rule load_movies_overwrites[OF ids1 d' all' assms(5)])
  have clean: "load_movies ld2 now2 movies' bsz2 [] = (Inr (length movies'), movie_rows ld2 now2 movies')"
    using load_movies_twice(1)[OF d' assms(5), of ld2 now2] all'' by simp
  have any: "load_movies ld2 now2 movies' bsz2 olds = (Inr (length movies'), movie_rows ld2 now2 movies')"
    if "map (Some \<circ> row_movie_id) olds = map j_id movies"
    by (rule load_movies_overwrites[OF _ d' all' assms(5)]) (simp only: that assms(3))
  have ids2: "map (Some \<circ> row_movie_id) (movie_rows ld2 now2 movies') = map j_id movies"
    by (simp only: movie_rows_ids all'' assms(3))
  have raw2: "map raw_data (movie_rows ld2 now2 movies') = movies'"
    by (simp only: movie_rows_raw_data all'')
  have ctx: "\<forall>row \<in> set (movie_rows ld2 now2 movies').
                source_url row = ''https://api.themoviedb.org/3/movie/{id}''
                \<and> ingested_at row = now2 \<and> row_batch_id row = batch_id ld2"
    using movie_rows_context[of _ ld2 now2 movies'] movie_rows_source_url[of _ ld2 now2 movies']
    by blast
  have cnt: "length (movie_rows ld1 now1 movies) = length movies"
     "length (movie_rows ld2 now2 movies') = length movies"
    by (simp_all add: movie_rows_length all all'' len)
  show ?thesis
    unfolding Let_def run1 snd_conv fst_conv run2 clean get_row_count_def
    using ids2 raw2 ctx cnt any len by simp
qed

text \<open>The witness: movies 1 and 2 loaded one row at a time, then loaded again with
  changed content, once on the table of the first run and once on a table of stale rows.\<close>

theorem load_movies_idempotent_witness:
  "distinct (map j_id [movie 1, movie 2]) \<and> has_id (movie 1) \<and> has_id (movie 2)
   \<and> map j_id [changed_movie 1, changed_movie 2] = map j_id [movie 1, movie 2]
   \<and> map (Some \<circ> row_movie_id) stale_table = map j_id [movie 1, movie 2]
   \<and> load_movies \<lparr>batch_id = ''run-2''\<rparr> ''t2'' [changed_movie 1, changed_movie 2] 1
        (snd (load_movies \<lparr>batch_id = ''run-1''\<rparr> ''t1'' [movie 1, movie 2] 1 []))
      = (Inr 2,
         [\<lparr>row_movie_id = 1, raw_data = changed_movie 1,
            source_url = ''https://api.themoviedb.org/3/movie/{id}'',
            ingested_at = ''t2'', row_batch_id = ''run-2''\<rparr>,
          \<lparr>row_movie_id = 2, raw_data = changed_movie 2,
            source_url = ''https://api.themoviedb.org/3/movie/{id}'',
            ingested_at = ''t2'', row_batch_id = ''run-2''\<rparr>])
   \<and> load_movies \<lparr>batch_id = ''run-2''\<rparr> ''t2'' [changed_movie 1, changed_movie 2] 1
        stale_table
      = (Inr 2,
         [\<lparr>row_movie_id = 1, raw_data = changed_movie 1,
            source_url = ''https://api.themoviedb.org/3/movie/{id}'',
            ingested_at = ''t2'', row_batch_id = ''run-2''\<rparr>,
          \<lparr>row_movie_id = 2, raw_data = changed_movie 2,
            source_url = ''https://api.themoviedb.org/3/movie/{id}'',
            ingested_at = ''t2'', row_batch_id = ''run-2''\<rparr>])
   \<and> get_row_count (snd (load_movies \<lparr>batch_id = ''run-2''\<rparr> ''t2''
        [changed_movie 1, changed_movie 2] 1
        (snd (load_movies \<lparr>batch_id = ''run-1''\<rparr> ''t1'' [movie 1, movie 2] 1 [])))) = 2"
proof -
  let ?run1 = "load_movies \<lparr>batch_id = ''run-1''\<rparr> ''t1'' [movie 1, movie 2] 1 []"
  let ?run2 = "load_movies \<lparr>batch_id = ''run-2''\<rparr> ''t2'' [changed_movie 1, changed_movie 2] 1
                 (snd ?run1)"
  have d: "distinct (map j_id [movie 1, movie 2])" by (simp add: movie_def)
  have h: "\<forall>m \<in> set [movie 1, movie 2]. has_id m" by (simp add: movie_def has_id_def)
  have i: "map j_id [changed_movie 1, changed_movie 2] = map j_id [movie 1, movie 2]"
    by (simp add: movie_def changed_movie_def)
  have o: "map (Some \<circ> row_movie_id) stale_table = map j_id [movie 1, movie 2]"
    by (simp add: movie_def stale_table_def)
  have pos: "0 < (1::int)" by simp
  have ev: "?run2
      = (Inr 2,
         [\<lparr>row_movie_id = 1, raw_data = changed_movie 1,
            source_url = ''https://api.themoviedb.org/3/movie/{id}'',
            ingested_at = ''t2'', row_batch_id = ''run-2''\<rparr>,
          \<lparr>row_movie_id = 2, raw_data = changed_movie 2,
            source_url = ''https://api.themoviedb.org/3/movie/{id}'',
            ingested_at = ''t2'', row_batch_id = ''run-2''\<rparr>])"
    by (simp add: load_movies_def load_batches.simps movie_rows_def merge_sql_def movie_def
          changed_movie_def Let_def)
  note inst = load_movies_idempotent[OF d h i pos pos, of "\<lparr>batch_id = ''run-1''\<rparr>" "''t1''"
         "\<lparr>batch_id = ''run-2''\<rparr>" "''t2''" stale_table, unfolded Let_def]
  from inst have cnt: "get_row_count (snd ?run2) = length [movie 1, movie 2]"
    by blast
  from inst o have "load_movies \<lparr>batch_id = ''run-2''\<rparr> ''t2''
        [changed_movie 1, changed_movie 2] 1 stale_table = ?run2"
    by blast
  then have st: "load_movies \<lparr>batch_id = ''run-2''\<rparr> ''t2''
        [changed_movie 1, changed_movie 2] 1 stale_table
      = (Inr 2,
         [\<lparr>row_movie_id = 1, raw_data = changed_movie 1,
            source_url = ''https://api.themoviedb.org/3/movie/{id}'',
            ingested_at = ''t2'', row_batch_id = ''run-2''\<rparr>,
          \<lparr>row_movie_id = 2, raw_data = changed_movie 2,
            source_url = ''https://api.themoviedb.org/3/movie/{id}'',
            ingested_at = ''t2'', row_batch_id = ''run-2''\<rparr>])"
    by (simp only: ev)
  from cnt have "get_row_count (snd ?run2) = 2" by simp
  with d h i o ev st show ?thesis by simp
qed

text \<open>Where the claim as stated fails: one record with the id 0 is a collection of
  \<open>N = 1\<close> records with distinct ids, and \<open>if movie.get("id")\<close> drops it, so that two
  runs leave no row at all.\<close>

theorem load_movies_idempotent_counterexample:
  "distinct (map j_id [movie 0])
   \<and> get_row_count (snd (load_movies \<lparr>batch_id = ''run-2''\<rparr> ''t2'' [movie 0] 100
        (snd (load_movies \<lparr>batch_id = ''run-1''\<rparr> ''t1'' [movie 0] 100 []))))
     \<noteq> length [movie 0]"
  by (simp add: load_movies_def load_batches.simps movie_rows_def movie_def Let_def
        get_row_count_def)

section \<open>Loading the genres\<close>

text \<open>
  \<^bold>\<open>C8\<close> (reference snapshot). \<open>load_genres\<close> of an empty list returns 0 and leaves the
  table as it is. Of any other list it returns 1 and appends one row that holds the
  whole list, the clock reading and the loader's batch id. Loading the same list in two
  runs, the second on the table the first one left, therefore appends two rows, the
  first with the batch id of the first loader and the second with that of the second.
\<close>

theorem load_genres_appends_snapshot:
  "load_genres ld now [] tbl = (0, tbl)
   \<and> (genres \<noteq> [] \<longrightarrow>
        load_genres ld now genres tbl =
          (1, tbl @ [\<lparr>genres_raw_data = genres, genres_ingested_at = now,
                       genres_batch_id = batch_id ld\<rparr>]))
   \<and> (genres \<noteq> [] \<longrightarrow>
        load_genres ld2 now2 genres (snd (load_genres ld1 now1 genres tbl)) =
          (1, tbl @ [\<lparr>genres_raw_data = genres, genres_ingested_at = now1,
                       genres_batch_id = batch_id ld1\<rparr>,
                     \<lparr>genres_raw_data = genres, genres_ingested_at = now2,
                       genres_batch_id = batch_id ld2\<rparr>]))"
  by (simp add: load_genres_def)

text \<open>The witness: a list of 19 entries loaded by two runs into an empty table.\<close>

theorem load_genres_appends_snapshot_witness:
  "length (map movie [1..19]) = 19
   \<and> map movie [1..19] \<noteq> []
   \<and> get_row_count (snd (load_genres \<lparr>batch_id = ''run-2''\<rparr> ''t2'' (map movie [1..19])
        (snd (load_genres \<lparr>batch_id = ''run-1''\<rparr> ''t1'' (map movie [1..19]) [])))) = 2
   \<and> map genres_batch_id (snd (load_genres \<lparr>batch_id = ''run-2''\<rparr> ''t2'' (map movie [1..19])
        (snd (load_genres \<lparr>batch_id = ''run-1''\<rparr> ''t1'' (map movie [1..19]) []))))
      = [''run-1'', ''run-2'']
   \<and> fst (load_genres \<lparr>batch_id = ''run-1''\<rparr> ''t1'' [] []) = 0"
proof -
  have n: "length (map movie [1..19]) = 19" by simp
  then have ne: "map movie [1..19] \<noteq> []" by auto
  note inst = load_genres_appends_snapshot[of "\<lparr>batch_id = ''run-1''\<rparr>" "''t1''" "[]"
         "map movie [1..19]" "\<lparr>batch_id = ''run-2''\<rparr>" "''t2''" "\<lparr>batch_id = ''run-1''\<rparr>" "''t1''"]
  from inst have zero: "load_genres \<lparr>batch_id = ''run-1''\<rparr> ''t1'' [] [] = (0, [])"
    by blast
  from inst ne
  have two: "load_genres \<lparr>batch_id = ''run-2''\<rparr> ''t2'' (map movie [1..19])
        (snd (load_genres \<lparr>batch_id = ''run-1''\<rparr> ''t1'' (map movie [1..19]) [])) =
          (1, [] @ [\<lparr>genres_raw_data = map movie [1..19], genres_ingested_at = ''t1'',
                       genres_batch_id = batch_id \<lparr>batch_id = ''run-1''\<rparr>\<rparr>,
                     \<lparr>genres_raw_data = map movie [1..19], genres_ingested_at = ''t2'',
                       genres_batch_id = batch_id \<lparr>batch_id = ''run-2''\<rparr>\<rparr>])"
    by blast
  show ?thesis
    unfolding two zero using n ne by (simp add: get_row_count_def)
qed

section \<open>The statistics of a run\<close>

text \<open>What \<open>run_pipeline\<close> returns when it returns: the keys of the dict and the values
  the claims are about, read off its definition.\<close>

lemma run_pipeline_returned:
  assumes ret: "completed (run_pipeline srv cfg env pages dry_run d)"
  shows "map fst (returned_stats (run_pipeline srv cfg env pages dry_run d)) =
           [''start_time'', ''pages_fetched'', ''movies_extracted'', ''genres_extracted'',
            ''movies_loaded'', ''genres_loaded'', ''errors'', ''duration_seconds'']
     \<and> map_of (returned_stats (run_pipeline srv cfg env pages dry_run d)) ''pages_fetched'' =
           Some (IntStat (pages_or pages (pages_to_fetch (tmdb cfg))))
     \<and> map_of (returned_stats (run_pipeline srv cfg env pages dry_run d)) ''movies_extracted'' =
           Some (IntStat (int (length (yielded
             (final_state (run_pipeline srv cfg env pages dry_run d))))))
     \<and> (\<not> dry_run \<and> 0 < batch_size cfg \<longrightarrow>
          map_of (returned_stats (run_pipeline srv cfg env pages dry_run d)) ''movies_loaded'' =
            Some (IntStat (int (length (filter has_id (yielded
              (final_state (run_pipeline srv cfg env pages dry_run d))))))))"
proof -
  let ?n = "pages_or pages (pages_to_fetch (tmdb cfg))"
  obtain rg s1 where g: "extract_genre_list srv init_state = (rg, s1)"
    by (cases "extract_genre_list srv init_state")
  show ?thesis
  proof (cases rg)
    case (Inl e)
    with ret g show ?thesis by (simp add: run_pipeline_def completed_def Let_def)
  next
    case (Inr genres)
    obtain rm s2 where m: "extract_movies_with_details srv (tmdb cfg) (Some ?n) s1 = (rm, s2)"
      by (cases "extract_movies_with_details srv (tmdb cfg) (Some ?n) s1")
    show ?thesis
    proof (cases rm)
      case (Some e)
      with ret g Inr m show ?thesis by (simp add: run_pipeline_def completed_def Let_def)
    next
      case None
      show ?thesis
      proof (cases dry_run)
        case True
        with g Inr m None show ?thesis
          by (simp add: run_pipeline_def returned_stats_def final_state_def initial_stats_def
                Let_def)
      next
        case False
        let ?ld = "\<lparr>batch_id = uuid4 env\<rparr>"
        obtain rl mt where
          l: "load_movies ?ld (movies_now env) (yielded s2) (batch_size cfg) (raw_movies d) = (rl, mt)"
          by (cases "load_movies ?ld (movies_now env) (yielded s2) (batch_size cfg) (raw_movies d)")
        show ?thesis
        proof (cases rl)
          case (Inl e)
          with ret g Inr m None False l show ?thesis
            by (simp add: run_pipeline_def completed_def Let_def split: prod.splits)
        next
          case loaded: (Inr k)
          have k: "k = length (filter has_id (yielded s2))" if "0 < batch_size cfg"
            using l loaded load_movies_fold[OF that, of ?ld "movies_now env" "yielded s2" "raw_movies d"]
            by (simp add: movie_rows_length)
          from g Inr m None False l loaded k show ?thesis
            by (simp add: run_pipeline_def returned_stats_def final_state_def initial_stats_def
                  Let_def split: prod.splits)
        qed
      qed
    qed
  qed
qed



lemma early_stop_run_requests:
  "completed early_stop_run
   \<and> listing_requests (trace (final_state early_stop_run)) = [1, 2, 3]"
  by code_simp




text \<open>
  \<^bold>\<open>C10\<close> (\<open>pages_fetched\<close> is the requested count). Whenever \<open>run_pipeline\<close> returns,
  for every server, the \<open>pages_fetched\<close> entry of the returned dict is the requested page
  count (the \<open>pages\<close> argument, or the configured default when that is absent or 0),
  whatever number of listing pages was fetched.
\<close>

theorem pages_fetched_is_the_requested_count:
  "completed (run_pipeline srv cfg env pages dry_run d) \<longrightarrow>
     map_of (returned_stats (run_pipeline srv cfg env pages dry_run d)) ''pages_fetched''
       = Some (IntStat (pages_or pages (pages_to_fetch (tmdb cfg))))"
  using run_pipeline_returned[of srv cfg env pages dry_run d] by blast

text \<open>The witness: 10 pages are requested from a server that reports 3; the listing
  requests are those for pages 1, 2 and 3, and \<open>pages_fetched\<close> is 10.\<close>

theorem pages_fetched_is_the_requested_count_witness:
  "completed early_stop_run
   \<and> listing_requests (trace (final_state early_stop_run)) = [1, 2, 3]
   \<and> map_of (returned_stats early_stop_run) ''pages_fetched'' = Some (IntStat 10)"
proof -
  note inst = pages_fetched_is_the_requested_count[of "paged_server 3" example_config
      example_env "Some 10" False empty_db, folded early_stop_run_def]
  from inst early_stop_run_requests
  have "map_of (returned_stats early_stop_run) ''pages_fetched''
          = Some (IntStat (pages_or (Some 10) (pages_to_fetch (tmdb example_config))))"
    by blast
  then have "map_of (returned_stats early_stop_run) ''pages_fetched'' = Some (IntStat 10)"
    by (simp add: pages_or_def)
  with early_stop_run_requests show ?thesis by simp
qed

end
